theory Spec2Isabelle
  imports Main
begin

unbundle bit_operations_syntax

section \<open>The process and its environment\<close>

text \<open>
  The program (\<^verbatim>\<open>src/main.cpp\<close>) is a single-threaded echo server built on
  \<^verbatim>\<open>select\<close>. Everything it does is a system call, so the embedding threads a
  \<open>world\<close> through the code: the value of the global \<^verbatim>\<open>errno\<close>, the list of
  system calls issued so far (oldest first, each with its return value) and the lines
  written to \<^verbatim>\<open>std::cerr\<close>. What the operating system answers is an input of the model.
\<close>

type_synonym descriptor = int

text \<open>A system call with the arguments the program chose.\<close>

datatype syscall =
    Socket
  | Setsockopt descriptor
  | FcntlGetfl descriptor
  | FcntlSetfl descriptor int
  | Bind descriptor int
  | Close descriptor
  | Listen descriptor
  | Select int "descriptor set"
  | Recv descriptor nat
  | Send descriptor string
  | Shutdown descriptor
  | Accept descriptor

type_synonym event = "syscall \<times> int"

record world =
  errno :: int
  trace :: "event list"
  stderr :: "string list"

text \<open>
  The answer of the operating system to one call: the return value, and the value the
  call stores in \<^verbatim>\<open>errno\<close>, if it stores one.
\<close>

type_synonym sysret = "int \<times> int option"

definition sys :: "syscall \<Rightarrow> sysret \<Rightarrow> world \<Rightarrow> int \<times> world" where
  "sys c r w =
     (fst r, w\<lparr>errno := (case snd r of None \<Rightarrow> errno w | Some e \<Rightarrow> e),
               trace := trace w @ [(c, fst r)]\<rparr>)"

definition cerr :: "string \<Rightarrow> world \<Rightarrow> world" where
  "cerr line w = w\<lparr>stderr := stderr w @ [line]\<rparr>"

text \<open>Constants of the platform headers (Linux values) and of the source.\<close>

definition BUFFER_SIZE :: nat where "BUFFER_SIZE = 1024"
definition EAGAIN :: int where "EAGAIN = 11"
definition O_NONBLOCK :: int where "O_NONBLOCK = 2048"
definition EXIT_SUCCESS :: int where "EXIT_SUCCESS = 0"
definition EXIT_FAILURE :: int where "EXIT_FAILURE = 1"

text \<open>What the operating system answers while the listening socket is set up and torn down.\<close>

record startup_env =
  socket_ret :: sysret
  setsockopt_ret :: sysret
  getfl_ret :: sysret
  setfl_ret :: sysret
  bind_ret :: sysret
  close_ret :: sysret
  listen_ret :: sysret

text \<open>
  The state of one client socket when \<^verbatim>\<open>recv\<close> is called on it: bytes queued in its
  receive buffer (none queued: the non-blocking call would block), the peer has closed,
  or the socket has a pending error.
\<close>

datatype pending = Pending string | PeerClosed | SockError int

text \<open>
  What the operating system answers during one iteration of the event loop.
  \<open>readable\<close> is the descriptor set as \<^verbatim>\<open>select\<close> leaves it. Every client is
  serviced at most once in an iteration, so the answers to \<^verbatim>\<open>recv\<close>,
  \<^verbatim>\<open>send\<close>, \<^verbatim>\<open>shutdown\<close> and \<^verbatim>\<open>close\<close> are indexed by the descriptor.
\<close>

record iter_env =
  select_ret :: sysret
  readable :: "descriptor \<Rightarrow> bool"
  pending_of :: "descriptor \<Rightarrow> pending"
  send_ret :: "descriptor \<Rightarrow> string \<Rightarrow> sysret"
  shutdown_ret :: "descriptor \<Rightarrow> sysret"
  client_close_ret :: "descriptor \<Rightarrow> sysret"
  accept_ret :: sysret
  accept_getfl_ret :: sysret
  accept_setfl_ret :: sysret

section \<open>Exceptions\<close>

text \<open>
  \<^verbatim>\<open>ft::exception\<close> derives from \<^verbatim>\<open>std::exception\<close> and carries a message. An
  exception object is identified by its dynamic type: a handler for
  \<^verbatim>\<open>const ft::exception &\<close> matches the first constructor only.
\<close>

datatype exn = FtException string | StdException

fun what :: "exn \<Rightarrow> string" where
  "what (FtException message) = message"
| "what StdException = ''std::exception''"

text \<open>
  \<^verbatim>\<open>throw e\<close> where \<^verbatim>\<open>e\<close> is declared \<^verbatim>\<open>const std::exception &\<close>: the exception
  object is copy-initialised from the static type of the operand, so the thrown object
  is a plain \<^verbatim>\<open>std::exception\<close> whatever \<^verbatim>\<open>e\<close> refers to.
\<close>

definition throw_copy_as_std_exception :: "exn \<Rightarrow> exn" where
  "throw_copy_as_std_exception e = StdException"

section \<open>setFdNonblock\<close>

definition setFdNonblock :: "descriptor \<Rightarrow> sysret \<Rightarrow> sysret \<Rightarrow> world \<Rightarrow> (exn + unit) \<times> world" where
  "setFdNonblock sock getfl setfl w =
     (case sys (FcntlGetfl sock) getfl w of (flags, w1) \<Rightarrow>
      case sys (FcntlSetfl sock (flags OR O_NONBLOCK)) setfl w1 of (r, w2) \<Rightarrow>
        if r = - 1 then (Inl (FtException ''fcntl(F_SETFL)''), w2) else (Inr (), w2))"

section \<open>ServerSocket\<close>

record ServerSocket =
  fd :: descriptor
  listening :: bool

text \<open>The body of the \<^verbatim>\<open>try\<close> block of the constructor.\<close>

definition ServerSocket_try :: "startup_env \<Rightarrow> descriptor \<Rightarrow> int \<Rightarrow> world \<Rightarrow> (exn + unit) \<times> world" where
  "ServerSocket_try env sfd port w =
     (case sys (Setsockopt sfd) (setsockopt_ret env) w of (r, w1) \<Rightarrow>
        if r < 0 then (Inl (FtException ''setsockopt()''), w1)
        else
          (case setFdNonblock sfd (getfl_ret env) (setfl_ret env) w1 of
             (Inl e, w2) \<Rightarrow> (Inl e, w2)
           | (Inr u, w2) \<Rightarrow>
               (case sys (Bind sfd port) (bind_ret env) w2 of (b, w3) \<Rightarrow>
                  if b < 0 then (Inl (FtException ''bind()''), w3) else (Inr (), w3))))"

definition ServerSocket_ctor :: "startup_env \<Rightarrow> int \<Rightarrow> world \<Rightarrow> (exn + ServerSocket) \<times> world" where
  "ServerSocket_ctor env port w =
     (if port \<le> 0 \<or> port > 65535 then (Inl (FtException ''Invalid port''), w)
      else case sys Socket (socket_ret env) w of (sfd, w1) \<Rightarrow>
        if sfd < 0 then (Inl (FtException ''socket()''), w1)
        else
          (case ServerSocket_try env sfd port w1 of
             (Inl e, w2) \<Rightarrow>
               (case sys (Close sfd) (close_ret env) w2 of (c, w3) \<Rightarrow>
                  (Inl (throw_copy_as_std_exception e), w3))
           | (Inr u, w2) \<Rightarrow> (Inr \<lparr>fd = sfd, listening = False\<rparr>, w2)))"

definition ServerSocket_dtor :: "startup_env \<Rightarrow> ServerSocket \<Rightarrow> world \<Rightarrow> world" where
  "ServerSocket_dtor env s w =
     (if fd s \<ge> 0 then snd (sys (Close (fd s)) (close_ret env) w) else w)"

definition listen :: "startup_env \<Rightarrow> ServerSocket \<Rightarrow> world \<Rightarrow> (exn + ServerSocket) \<times> world" where
  "listen env s w =
     (if listening s then (Inl (FtException ''Already listening''), w)
      else case sys (Listen (fd s)) (listen_ret env) w of (r, w1) \<Rightarrow>
        if r < 0 then (Inl (FtException ''listen()''), w1)
        else (Inr (s\<lparr>listening := True\<rparr>), w1))"

definition getFd :: "ServerSocket \<Rightarrow> descriptor" where
  "getFd s = fd s"

section \<open>Server\<close>

record Server =
  socket :: ServerSocket
  started :: bool

definition Server_ctor :: "startup_env \<Rightarrow> int \<Rightarrow> world \<Rightarrow> (exn + Server) \<times> world" where
  "Server_ctor env port w =
     (case ServerSocket_ctor env port w of
        (Inl e, w1) \<Rightarrow> (Inl e, w1)
      | (Inr s, w1) \<Rightarrow> (Inr \<lparr>socket = s, started = False\<rparr>, w1))"

definition Server_dtor :: "startup_env \<Rightarrow> Server \<Rightarrow> world \<Rightarrow> world" where
  "Server_dtor env srv w = ServerSocket_dtor env (socket srv) w"

subsection \<open>The set of client sockets\<close>

text \<open>
  \<^verbatim>\<open>std::set<int>\<close> keeps its elements in ascending order without duplicates and is
  iterated in that order: it is a strictly ascending list. \<^verbatim>\<open>insert\<close> puts a new
  element at its place and ignores one that is present; \<^verbatim>\<open>rbegin\<close> is the last
  element.
\<close>

fun set_insert :: "int \<Rightarrow> int list \<Rightarrow> int list" where
  "set_insert x [] = [x]"
| "set_insert x (y # ys) =
     (if x < y then x # y # ys else if x = y then y # ys else y # set_insert x ys)"

definition maxSocketId :: "descriptor \<Rightarrow> descriptor list \<Rightarrow> descriptor" where
  "maxSocketId serverSocket clientSockets =
     (if clientSockets = [] then serverSocket
      else max serverSocket (last clientSockets))"

subsection \<open>Descriptor sets and the readiness wait\<close>

type_synonym fd_set = "descriptor set"

definition FD_ZERO :: fd_set where
  "FD_ZERO = {}"

definition FD_SET :: "descriptor \<Rightarrow> fd_set \<Rightarrow> fd_set" where
  "FD_SET sock fds = insert sock fds"

definition FD_ISSET :: "descriptor \<Rightarrow> fd_set \<Rightarrow> bool" where
  "FD_ISSET sock fds = (sock \<in> fds)"

text \<open>The interest set of an iteration: the listener, then every client.\<close>

definition interest :: "descriptor \<Rightarrow> descriptor list \<Rightarrow> fd_set" where
  "interest lfd clientSockets =
     foldl (\<lambda>fds sock. FD_SET sock fds) (FD_SET lfd FD_ZERO) clientSockets"

text \<open>
  \<^verbatim>\<open>select(nfds, &fds, 0, 0, 0)\<close> looks at the descriptors below \<open>nfds\<close> only and
  leaves in the set those that are ready to be read.
\<close>

definition sys_select :: "iter_env \<Rightarrow> int \<Rightarrow> fd_set \<Rightarrow> world \<Rightarrow> fd_set \<times> world" where
  "sys_select env nfds fds w =
     (Set.filter (\<lambda>s. s < nfds \<and> readable env s) fds,
      snd (sys (Select nfds fds) (select_ret env) w))"

subsection \<open>Servicing the clients\<close>

text \<open>
  \<^verbatim>\<open>recv(sock, buf, len, 0)\<close> on a non-blocking stream socket: the return value and
  the bytes stored at the start of the buffer.
\<close>

definition sys_recv :: "iter_env \<Rightarrow> descriptor \<Rightarrow> nat \<Rightarrow> world \<Rightarrow> (int \<times> string) \<times> world" where
  "sys_recv env sock len w =
     (case pending_of env sock of
        Pending bs \<Rightarrow>
          if bs = [] then
            (case sys (Recv sock len) (- 1, Some EAGAIN) w of (r, w1) \<Rightarrow> ((r, []), w1))
          else
            (case sys (Recv sock len) (int (min (length bs) len), None) w of
               (r, w1) \<Rightarrow> ((r, take len bs), w1))
      | PeerClosed \<Rightarrow>
          (case sys (Recv sock len) (0, None) w of (r, w1) \<Rightarrow> ((r, []), w1))
      | SockError e \<Rightarrow>
          (case sys (Recv sock len) (- 1, Some e) w of (r, w1) \<Rightarrow> ((r, []), w1)))"

text \<open>
  The body of the inner \<^verbatim>\<open>while\<close> loop for the client under the iterator. The
  result is \<open>True\<close> when the client was erased from the set.
\<close>

definition serviceClient :: "iter_env \<Rightarrow> fd_set \<Rightarrow> descriptor \<Rightarrow> world \<Rightarrow> bool \<times> world" where
  "serviceClient env fds sock w =
     (if FD_ISSET sock fds then
        (case sys_recv env sock BUFFER_SIZE w of ((nRead, buf), w1) \<Rightarrow>
           if nRead \<le> 0 \<and> errno w1 \<noteq> EAGAIN then
             (case sys (Shutdown sock) (shutdown_ret env sock) w1 of (r2, w2) \<Rightarrow>
              case sys (Close sock) (client_close_ret env sock) w2 of (r3, w3) \<Rightarrow>
                (True, w3))
           else if nRead > 0 then
             (case sys (Send sock (take (nat nRead) buf))
                       (send_ret env sock (take (nat nRead) buf)) w1 of
                (r2, w2) \<Rightarrow> (False, w2))
           else (False, w1))
      else (False, w))"

text \<open>The inner loop: the iterator runs over the set in ascending order.\<close>

fun serviceClients :: "iter_env \<Rightarrow> fd_set \<Rightarrow> descriptor list \<Rightarrow> world \<Rightarrow> descriptor list \<times> world" where
  "serviceClients env fds [] w = ([], w)"
| "serviceClients env fds (sock # rest) w =
     (case serviceClient env fds sock w of (erased, w1) \<Rightarrow>
      case serviceClients env fds rest w1 of (kept, w2) \<Rightarrow>
        (if erased then kept else sock # kept, w2))"

subsection \<open>Servicing the listener\<close>

definition serviceListener :: "iter_env \<Rightarrow> fd_set \<Rightarrow> descriptor \<Rightarrow> descriptor list \<Rightarrow> world \<Rightarrow>
    (exn + descriptor list) \<times> world" where
  "serviceListener env fds lfd clientSockets w =
     (if FD_ISSET lfd fds then
        (case sys (Accept lfd) (accept_ret env) w of (sock, w1) \<Rightarrow>
           if sock = - 1 then (Inl (FtException ''accept()''), w1)
           else
             (case setFdNonblock sock (accept_getfl_ret env) (accept_setfl_ret env) w1 of
                (Inl e, w2) \<Rightarrow> (Inl e, w2)
              | (Inr u, w2) \<Rightarrow> (Inr (set_insert sock clientSockets), w2)))
      else (Inr clientSockets, w))"

subsection \<open>One iteration of the event loop, and the loop\<close>

definition iteration :: "iter_env \<Rightarrow> descriptor \<Rightarrow> descriptor list \<Rightarrow> world \<Rightarrow>
    (exn + descriptor list) \<times> world" where
  "iteration env lfd clientSockets w =
     (case sys_select env (maxSocketId lfd clientSockets + 1) (interest lfd clientSockets) w of
        (fds, w1) \<Rightarrow>
      case serviceClients env fds clientSockets w1 of (clientSockets', w2) \<Rightarrow>
        serviceListener env fds lfd clientSockets' w2)"

text \<open>
  \<^verbatim>\<open>while (true)\<close> never ends by itself. The loop is driven by the answers of the
  operating system, one \<open>iter_env\<close> for each iteration; when they are used up the
  server is still running, with the client set it has then.
\<close>

fun event_loop :: "iter_env list \<Rightarrow> descriptor \<Rightarrow> descriptor list \<Rightarrow> world \<Rightarrow>
    (exn + descriptor list) \<times> world" where
  "event_loop [] lfd clientSockets w = (Inr clientSockets, w)"
| "event_loop (env # envs) lfd clientSockets w =
     (case iteration env lfd clientSockets w of
        (Inl e, w1) \<Rightarrow> (Inl e, w1)
      | (Inr clientSockets', w1) \<Rightarrow> event_loop envs lfd clientSockets' w1)"

definition start :: "startup_env \<Rightarrow> iter_env list \<Rightarrow> Server \<Rightarrow> world \<Rightarrow>
    (exn + Server \<times> descriptor list) \<times> world" where
  "start senv envs srv w =
     (if started srv then (Inl (FtException ''Already started''), w)
      else
        (case listen senv (socket srv) w of
           (Inl e, w1) \<Rightarrow> (Inl e, w1)
         | (Inr s, w1) \<Rightarrow>
             (case event_loop envs (getFd s) [] w1 of
                (Inl e, w2) \<Rightarrow> (Inl e, w2)
              | (Inr clientSockets, w2) \<Rightarrow>
                  (Inr (\<lparr>socket = s, started = True\<rparr>, clientSockets), w2))))"

section \<open>main\<close>

text \<open>
  \<^verbatim>\<open>atoi\<close> of the C library (glibc): \<^verbatim>\<open>(int) strtol(nptr, NULL, 10)\<close>.
  \<^verbatim>\<open>strtol\<close> skips leading white space, takes an optional sign and then decimal
  digits up to the first other character, and answers \<^verbatim>\<open>LONG_MAX\<close> or \<^verbatim>\<open>LONG_MIN\<close>
  for a value outside the 64-bit \<^verbatim>\<open>long\<close>; the conversion to \<^verbatim>\<open>int\<close> keeps the low
  32 bits, read as two's complement.
\<close>

definition isspace :: "char \<Rightarrow> bool" where
  "isspace c = (of_char c \<in> {9, 10, 11, 12, 13, 32 :: nat})"

definition isdigit :: "char \<Rightarrow> bool" where
  "isdigit c = (48 \<le> (of_char c :: nat) \<and> (of_char c :: nat) \<le> 57)"

fun atoi_digits :: "int \<Rightarrow> string \<Rightarrow> int" where
  "atoi_digits acc [] = acc"
| "atoi_digits acc (c # cs) =
     (if isdigit c then atoi_digits (acc * 10 + (int (of_char c) - 48)) cs else acc)"

definition LONG_MAX :: int where "LONG_MAX = 9223372036854775807"
definition LONG_MIN :: int where "LONG_MIN = - 9223372036854775808"

definition strtol :: "string \<Rightarrow> int" where
  "strtol s =
     (let v = (case dropWhile isspace s of
                 [] \<Rightarrow> 0
               | c # cs \<Rightarrow>
                   if c = CHR ''-'' then - atoi_digits 0 cs
                   else if c = CHR ''+'' then atoi_digits 0 cs
                   else atoi_digits 0 (c # cs))
      in if v > LONG_MAX then LONG_MAX else if v < LONG_MIN then LONG_MIN else v)"

definition long_to_int :: "int \<Rightarrow> int" where
  "long_to_int v = (v + 2147483648) mod 4294967296 - 2147483648"

definition atoi :: "string \<Rightarrow> int" where
  "atoi s = long_to_int (strtol s)"

text \<open>
  How the process ends: \<^verbatim>\<open>main\<close> returns a status; an exception that no handler
  matches ends it through \<^verbatim>\<open>std::terminate\<close>; or the server is still in its loop.
\<close>

datatype status = Exited int | Terminated | Running

text \<open>
  The \<^verbatim>\<open>try\<close> block of \<^verbatim>\<open>main\<close>. An exception that leaves \<^verbatim>\<open>start\<close> destroys the
  server on its way to the handler.
\<close>

definition main_try :: "startup_env \<Rightarrow> iter_env list \<Rightarrow> int \<Rightarrow> world \<Rightarrow> (exn + unit) \<times> world" where
  "main_try senv envs port w =
     (case Server_ctor senv port w of
        (Inl e, w1) \<Rightarrow> (Inl e, w1)
      | (Inr server, w1) \<Rightarrow>
          (case start senv envs server w1 of
             (Inl e, w2) \<Rightarrow> (Inl e, Server_dtor senv server w2)
           | (Inr running, w2) \<Rightarrow> (Inr (), w2)))"

definition main :: "string list \<Rightarrow> startup_env \<Rightarrow> iter_env list \<Rightarrow> world \<Rightarrow> status \<times> world" where
  "main argv senv envs w =
     (if int (length argv) \<noteq> 2 then (Exited EXIT_SUCCESS, cerr ''Usage: port'' w)
      else
        (case main_try senv envs (atoi (argv ! 1)) w of
           (Inl (FtException message), w1) \<Rightarrow>
             (Exited EXIT_FAILURE, cerr (what (FtException message)) w1)
         | (Inl StdException, w1) \<Rightarrow> (Terminated, w1)
         | (Inr u, w1) \<Rightarrow> (Running, w1)))"

section \<open>Observing a trace\<close>

text \<open>
  The properties of the server are stated on the trace of system calls. The functions
  below read one kind of fact off a trace; none of them is part of the program.
\<close>

text \<open>The payloads handed to \<^verbatim>\<open>send\<close> for one descriptor, in order.\<close>

fun sent_by :: "descriptor \<Rightarrow> event \<Rightarrow> string list" where
  "sent_by sock (Send s bs, r) = (if s = sock then [bs] else [])"
| "sent_by sock (c, r) = []"

definition sent_to :: "descriptor \<Rightarrow> event list \<Rightarrow> string list" where
  "sent_to sock tr = concat (map (sent_by sock) tr)"

text \<open>
  The bytes the operating system took over for one descriptor: \<^verbatim>\<open>send\<close> returns how
  many bytes of the payload it accepted, or a negative value when it accepted none.
\<close>

fun delivered_by :: "descriptor \<Rightarrow> event \<Rightarrow> string" where
  "delivered_by sock (Send s bs, r) = (if s = sock \<and> 0 \<le> r then take (nat r) bs else [])"
| "delivered_by sock (c, r) = []"

definition echoed :: "descriptor \<Rightarrow> event list \<Rightarrow> string" where
  "echoed sock tr = concat (map (delivered_by sock) tr)"

text \<open>The descriptors \<^verbatim>\<open>recv\<close> was called on, in order.\<close>

fun recv_of :: "event \<Rightarrow> descriptor list" where
  "recv_of (Recv s n, r) = [s]"
| "recv_of (c, r) = []"

definition recv_order :: "event list \<Rightarrow> descriptor list" where
  "recv_order tr = concat (map recv_of tr)"

text \<open>The calls the loop makes while it services a client.\<close>

fun is_client_service :: "event \<Rightarrow> bool" where
  "is_client_service (Recv s n, r) = True"
| "is_client_service (Send s bs, r) = True"
| "is_client_service (Shutdown s, r) = True"
| "is_client_service (Close s, r) = True"
| "is_client_service (c, r) = False"

text \<open>
  The client descriptors that are open after a trace: \<^verbatim>\<open>accept\<close> opens the one it
  returns, \<^verbatim>\<open>close\<close> releases its argument.
\<close>

fun track_open :: "event \<Rightarrow> descriptor set \<Rightarrow> descriptor set" where
  "track_open (Accept l, r) S = (if r \<noteq> - 1 then insert r S else S)"
| "track_open (Close s, r) S = S - {s}"
| "track_open (c, r) S = S"

definition live_after :: "event list \<Rightarrow> descriptor set \<Rightarrow> descriptor set" where
  "live_after tr S = fold track_open tr S"

section \<open>Scenarios\<close>

text \<open>A fresh process, and an operating system where every call of the start-up succeeds.\<close>

definition world0 :: world where
  "world0 = \<lparr>errno = 0, trace = [], stderr = []\<rparr>"

definition startup_ok :: startup_env where
  "startup_ok = \<lparr>socket_ret = (3, None), setsockopt_ret = (0, None), getfl_ret = (2, None),
     setfl_ret = (0, None), bind_ret = (0, None), close_ret = (0, None), listen_ret = (0, None)\<rparr>"

text \<open>
  One iteration with the listener on descriptor 3: client 4 has sent \<open>ping\<close>, client 5
  has closed its side, any other client is silent, and a new connection is waiting,
  which \<^verbatim>\<open>accept\<close> returns as descriptor 7.
\<close>

definition busy_env :: iter_env where
  "busy_env = \<lparr>select_ret = (3, None),
     readable = (\<lambda>s. s = 3 \<or> s = 4 \<or> s = 5),
     pending_of = (\<lambda>s. if s = 4 then Pending ''ping'' else if s = 5 then PeerClosed else Pending []),
     send_ret = (\<lambda>s bs. (int (length bs), None)),
     shutdown_ret = (\<lambda>s. (0, None)),
     client_close_ret = (\<lambda>s. (0, None)),
     accept_ret = (7, None),
     accept_getfl_ret = (2, None),
     accept_setfl_ret = (0, None)\<rparr>"

text \<open>
  The same iteration when the send buffer of client 4 is full: \<^verbatim>\<open>send\<close> fails and
  stores \<^verbatim>\<open>EAGAIN\<close> in \<^verbatim>\<open>errno\<close>.
\<close>

definition send_buffer_full_env :: iter_env where
  "send_buffer_full_env = busy_env\<lparr>send_ret := (\<lambda>s bs. (- 1, Some EAGAIN))\<rparr>"

section \<open>The set of client sockets and the readiness wait\<close>

lemma set_insert_set [simp]: "set (set_insert x xs) = insert x (set xs)"
  by (induction xs) auto

lemma set_insert_sorted: "sorted_wrt (<) xs \<Longrightarrow> sorted_wrt (<) (set_insert x xs)"
  by (induction xs) auto

lemma interest_eq: "interest lfd cs = insert lfd (set cs)"
proof -
  have "foldl (\<lambda>fds sock. FD_SET sock fds) A cs = A \<union> set cs" for A
    by (induction cs arbitrary: A) (auto simp: FD_SET_def)
  then show ?thesis by (simp add: interest_def FD_SET_def FD_ZERO_def)
qed

lemma last_strict_sorted: "sorted_wrt (<) cs \<Longrightarrow> cs \<noteq> [] \<Longrightarrow> last cs = Max (set cs)"
proof (induction cs)
  case Nil
  then show ?case by simp
next
  case (Cons c cs)
  show ?case
  proof (cases "cs = []")
    case True
    then show ?thesis by simp
  next
    case False
    with Cons have "last cs = Max (set cs)" by simp
    moreover have "Max (set cs) \<in> set cs" using False by simp
    then have "c < Max (set cs)" using Cons.prems by simp
    ultimately show ?thesis using False by (simp add: max_def less_imp_le)
  qed
qed

lemma maxSocketId_eq:
  assumes "sorted_wrt (<) cs"
  shows "maxSocketId s cs = (if cs = [] then s else max s (Max (set cs)))"
  using assms by (simp add: maxSocketId_def last_strict_sorted)

lemma maxSocketId_ge: "lfd \<le> maxSocketId lfd cs"
  by (simp add: maxSocketId_def)

lemma interest_below_nfds:
  assumes "sorted_wrt (<) cs" and "x \<in> interest s cs"
  shows "x < maxSocketId s cs + 1"
proof (cases "cs = []")
  case True
  with assms(2) show ?thesis by (simp add: interest_eq maxSocketId_def)
next
  case False
  then have "x \<in> set cs \<Longrightarrow> x \<le> max s (Max (set cs))"
    by (simp add: max.coboundedI2)
  with assms(2) False have "x \<le> max s (Max (set cs))" by (auto simp: interest_eq)
  with False show ?thesis by (simp add: maxSocketId_eq [OF assms(1)])
qed

text \<open>
  Claim C10. For a server descriptor \<open>s\<close> and a client set \<open>cs\<close> (a \<^verbatim>\<open>std::set\<close>, so
  strictly ascending), \<open>maxSocketId s cs\<close> is \<open>s\<close> when the set is empty and the
  maximum of \<open>s\<close> and the largest client otherwise; so the first argument of
  \<^verbatim>\<open>select\<close>, \<open>maxSocketId s cs + 1\<close>, is above every descriptor of the interest set.
\<close>

theorem maxSocketId_is_max:
  assumes "sorted_wrt (<) cs"
  shows "maxSocketId s cs = (if cs = [] then s else max s (Max (set cs)))
       \<and> (\<forall>x \<in> interest s cs. x < maxSocketId s cs + 1)"
  using maxSocketId_eq [OF assms] interest_below_nfds [OF assms] by blast

theorem maxSocketId_is_max_witness:
  "sorted_wrt (<) [4, 7, 9 :: int] \<and> maxSocketId 3 [4, 7, 9] = 9 \<and> maxSocketId 12 [4, 7, 9] = 12
     \<and> maxSocketId 3 [] = 3 \<and> 9 \<in> interest 3 [4, 7, 9] \<and> (9::int) < maxSocketId 3 [4, 7, 9] + 1"
  using maxSocketId_is_max [of "[4, 7, 9]" 3] maxSocketId_is_max [of "[4, 7, 9]" 12]
    maxSocketId_is_max [of "[]" 3]
  by (simp add: interest_eq)

section \<open>Start-up and command line\<close>

text \<open>
  Claim C9. When the process is started with an argument count other than two (the
  program name and the port), it writes the usage line to standard error and exits with
  status 0; it issues no system call, so no server is constructed.
\<close>

theorem main_usage:
  assumes "length argv \<noteq> 2"
  shows "fst (main argv senv envs w) = Exited 0
       \<and> stderr (snd (main argv senv envs w)) = stderr w @ [''Usage: port'']
       \<and> trace (snd (main argv senv envs w)) = trace w"
  using assms by (simp add: main_def cerr_def EXIT_SUCCESS_def)

theorem main_usage_witness:
  "length [''server''] \<noteq> 2 \<and> length [''server'', ''8080'', ''extra''] \<noteq> 2
     \<and> main [''server''] startup_ok [] world0 = (Exited 0, world0\<lparr>stderr := [''Usage: port'']\<rparr>)
     \<and> fst (main [''server'', ''8080'', ''extra''] startup_ok [] world0) = Exited 0"
  using main_usage [of "[''server'']" startup_ok "[]" world0]
    main_usage [of "[''server'', ''8080'', ''extra'']" startup_ok "[]" world0]
  by (simp add: main_def cerr_def EXIT_SUCCESS_def world0_def)

text \<open>
  Claim C6. Constructing a server with port \<open>p\<close> throws \<open>Invalid port\<close> exactly when
  \<open>p \<le> 0\<close> or \<open>p > 65535\<close>, and then nothing has happened yet: the world is untouched,
  no socket was asked for. With a port in range the constructor does reach the
  operating system.
\<close>

theorem ctor_invalid_port:
  "(fst (Server_ctor env port w) = Inl (FtException ''Invalid port'')) = (port \<le> 0 \<or> port > 65535)
   \<and> (if port \<le> 0 \<or> port > 65535 then snd (Server_ctor env port w) = w
      else trace (snd (Server_ctor env port w)) \<noteq> trace w)"
  by (auto simp: Server_ctor_def ServerSocket_ctor_def throw_copy_as_std_exception_def sys_def
      ServerSocket_try_def setFdNonblock_def
      split: prod.splits sum.splits if_splits)

theorem ctor_invalid_port_witness:
  "Server_ctor startup_ok 0 world0 = (Inl (FtException ''Invalid port''), world0)
   \<and> Server_ctor startup_ok 70000 world0 = (Inl (FtException ''Invalid port''), world0)
   \<and> fst (Server_ctor startup_ok 65535 world0) \<noteq> Inl (FtException ''Invalid port'')
   \<and> fst (Server_ctor startup_ok 1 world0) \<noteq> Inl (FtException ''Invalid port'')"
  using ctor_invalid_port [of startup_ok 0 world0] ctor_invalid_port [of startup_ok 70000 world0]
    ctor_invalid_port [of startup_ok 65535 world0] ctor_invalid_port [of startup_ok 1 world0]
  by (simp add: prod_eq_iff Server_ctor_def ServerSocket_ctor_def)

text \<open>
  Claim C7. When the constructor of the listening socket fails after \<^verbatim>\<open>socket\<close> has
  returned a descriptor (\<^verbatim>\<open>setsockopt\<close>, \<^verbatim>\<open>fcntl(F_SETFL)\<close> or \<^verbatim>\<open>bind\<close> fails), an
  exception leaves the constructor, and the last system call before it does is the
  \<^verbatim>\<open>close\<close> of that descriptor, made exactly once.
\<close>

theorem ctor_failure_closes_descriptor:
  assumes "0 < port" and "port \<le> 65535" and "0 \<le> fst (socket_ret env)"
    and "fst (setsockopt_ret env) < 0 \<or> fst (setfl_ret env) = - 1 \<or> fst (bind_ret env) < 0"
  shows "(\<exists>e. fst (ServerSocket_ctor env port w) = Inl e)
       \<and> last (trace (snd (ServerSocket_ctor env port w)))
           = (Close (fst (socket_ret env)), fst (close_ret env))
       \<and> count_list (map fst (trace (snd (ServerSocket_ctor env port w)))) (Close (fst (socket_ret env)))
           = count_list (map fst (trace w)) (Close (fst (socket_ret env))) + 1"
  using assms
  by (auto simp: ServerSocket_ctor_def throw_copy_as_std_exception_def sys_def
      ServerSocket_try_def setFdNonblock_def
      split: prod.splits sum.splits if_splits)

theorem ctor_failure_closes_descriptor_witness:
  "(0::int) < 8080 \<and> (8080::int) \<le> 65535 \<and> 0 \<le> fst (socket_ret (startup_ok\<lparr>bind_ret := (- 1, Some 98)\<rparr>))
   \<and> (fst (setsockopt_ret (startup_ok\<lparr>bind_ret := (- 1, Some 98)\<rparr>)) < 0
        \<or> fst (setfl_ret (startup_ok\<lparr>bind_ret := (- 1, Some 98)\<rparr>)) = - 1
        \<or> fst (bind_ret (startup_ok\<lparr>bind_ret := (- 1, Some 98)\<rparr>)) < 0)
   \<and> (\<exists>e. fst (ServerSocket_ctor (startup_ok\<lparr>bind_ret := (- 1, Some 98)\<rparr>) 8080 world0) = Inl e)
   \<and> trace (snd (ServerSocket_ctor (startup_ok\<lparr>bind_ret := (- 1, Some 98)\<rparr>) 8080 world0))
       = [(Socket, 3), (Setsockopt 3, 0), (FcntlGetfl 3, 2), (FcntlSetfl 3 2050, 0),
          (Bind 3 8080, - 1), (Close 3, 0)]"
  using ctor_failure_closes_descriptor [of 8080 "startup_ok\<lparr>bind_ret := (- 1, Some 98)\<rparr>" world0]
  by (simp add: startup_ok_def world0_def ServerSocket_ctor_def ServerSocket_try_def
      setFdNonblock_def sys_def O_NONBLOCK_def throw_copy_as_std_exception_def)

section \<open>Servicing one client\<close>

lemma sent_to_simps [simp]:
  "sent_to s [] = []"
  "sent_to s (ev # tr) = sent_by s ev @ sent_to s tr"
  "sent_to s (xs @ ys) = sent_to s xs @ sent_to s ys"
  by (simp_all add: sent_to_def)

lemma echoed_simps [simp]:
  "echoed s [] = []"
  "echoed s (ev # tr) = delivered_by s ev @ echoed s tr"
  "echoed s (xs @ ys) = echoed s xs @ echoed s ys"
  by (simp_all add: echoed_def)

lemma recv_order_simps [simp]:
  "recv_order [] = []"
  "recv_order (ev # tr) = recv_of ev @ recv_order tr"
  "recv_order (xs @ ys) = recv_order xs @ recv_order ys"
  by (simp_all add: recv_order_def)

lemma live_after_simps [simp]:
  "live_after [] S = S"
  "live_after (ev # tr) S = live_after tr (track_open ev S)"
  "live_after (xs @ ys) S = live_after ys (live_after xs S)"
  by (simp_all add: live_after_def)

lemma take_min_length [simp]: "take (min (length bs) n) bs = take n bs"
  by (simp add: min_def)

text \<open>The five ways through the loop body.\<close>

lemma serviceClient_not_ready:
  "\<not> FD_ISSET s fds \<Longrightarrow> serviceClient env fds s w = (False, w)"
  by (simp add: serviceClient_def)

lemma serviceClient_would_block:
  assumes "FD_ISSET s fds" and "pending_of env s = Pending []"
  shows "fst (serviceClient env fds s w) = False"
    and "trace (snd (serviceClient env fds s w)) = trace w @ [(Recv s BUFFER_SIZE, - 1)]"
    and "errno (snd (serviceClient env fds s w)) = EAGAIN"
  using assms by (simp_all add: serviceClient_def sys_recv_def sys_def)

lemma serviceClient_data:
  assumes "FD_ISSET s fds" and "pending_of env s = Pending B" and "B \<noteq> []"
  shows "fst (serviceClient env fds s w) = False"
    and "trace (snd (serviceClient env fds s w)) = trace w @
          [(Recv s BUFFER_SIZE, int (min (length B) BUFFER_SIZE)),
           (Send s (take BUFFER_SIZE B), fst (send_ret env s (take BUFFER_SIZE B)))]"
  using assms by (simp_all add: serviceClient_def sys_recv_def sys_def BUFFER_SIZE_def)

lemma serviceClient_eof:
  assumes "FD_ISSET s fds" and "pending_of env s = PeerClosed"
  shows "fst (serviceClient env fds s w) = (errno w \<noteq> EAGAIN)"
    and "trace (snd (serviceClient env fds s w)) = trace w @
          (if errno w \<noteq> EAGAIN
           then [(Recv s BUFFER_SIZE, 0), (Shutdown s, fst (shutdown_ret env s)),
                 (Close s, fst (client_close_ret env s))]
           else [(Recv s BUFFER_SIZE, 0)])"
  using assms by (simp_all add: serviceClient_def sys_recv_def sys_def)

lemma serviceClient_error:
  assumes "FD_ISSET s fds" and "pending_of env s = SockError e"
  shows "fst (serviceClient env fds s w) = (e \<noteq> EAGAIN)"
    and "trace (snd (serviceClient env fds s w)) = trace w @
          (if e \<noteq> EAGAIN
           then [(Recv s BUFFER_SIZE, - 1), (Shutdown s, fst (shutdown_ret env s)),
                 (Close s, fst (client_close_ret env s))]
           else [(Recv s BUFFER_SIZE, - 1)])"
  using assms by (simp_all add: serviceClient_def sys_recv_def sys_def)

lemma serviceClient_cases:
  obtains (not_ready) "\<not> FD_ISSET s fds"
  | (would_block) "FD_ISSET s fds" "pending_of env s = Pending []"
  | (data) B where "FD_ISSET s fds" "pending_of env s = Pending B" "B \<noteq> []"
  | (eof) "FD_ISSET s fds" "pending_of env s = PeerClosed"
  | (error) e where "FD_ISSET s fds" "pending_of env s = SockError e"
  by (cases "pending_of env s") auto

lemma serviceClient_other:
  assumes "t \<noteq> s"
  shows "sent_to t (trace (snd (serviceClient env fds s w))) = sent_to t (trace w)
       \<and> echoed t (trace (snd (serviceClient env fds s w))) = echoed t (trace w)"
proof (cases rule: serviceClient_cases [where s = s and fds = fds and env = env])
  case not_ready
  then show ?thesis by (simp add: serviceClient_not_ready)
next
  case would_block
  then show ?thesis by (simp add: serviceClient_would_block)
next
  case (data B)
  then show ?thesis using assms by (simp add: serviceClient_data)
next
  case eof
  then show ?thesis by (simp add: serviceClient_eof)
next
  case (error e)
  then show ?thesis by (simp add: serviceClient_error)
qed

lemma serviceClient_echo:
  assumes "FD_ISSET s fds" and "pending_of env s = Pending B"
  shows "sent_to s (trace (snd (serviceClient env fds s w)))
           = sent_to s (trace w) @ (if B = [] then [] else [take BUFFER_SIZE B])"
    and "echoed s (trace (snd (serviceClient env fds s w)))
           = echoed s (trace w) @
             (if B = [] then []
              else delivered_by s (Send s (take BUFFER_SIZE B),
                                   fst (send_ret env s (take BUFFER_SIZE B))))"
  using assms serviceClient_would_block(2) [of s fds env w] serviceClient_data(2) [of s fds env B w]
  by (cases "B = []"; simp)+

lemma serviceClient_events:
  "\<exists>evs. trace (snd (serviceClient env fds s w)) = trace w @ evs
     \<and> (\<forall>ev\<in>set evs. is_client_service ev)
     \<and> recv_order evs = (if FD_ISSET s fds then [s] else [])
     \<and> (\<forall>S. live_after evs S = (if fst (serviceClient env fds s w) then S - {s} else S))"
proof (cases rule: serviceClient_cases [where s = s and fds = fds and env = env])
  case not_ready
  then show ?thesis by (simp add: serviceClient_not_ready)
next
  case would_block
  then show ?thesis by (simp add: serviceClient_would_block)
next
  case (data B)
  then show ?thesis by (simp add: serviceClient_data)
next
  case eof
  then show ?thesis by (simp add: serviceClient_eof)
next
  case (error e)
  then show ?thesis by (simp add: serviceClient_error)
qed

lemma serviceClient_keeps:
  assumes "\<not> FD_ISSET s fds \<or> (\<exists>B. pending_of env s = Pending B) \<or> pending_of env s = SockError EAGAIN"
  shows "fst (serviceClient env fds s w) = False"
proof (cases rule: serviceClient_cases [where s = s and fds = fds and env = env])
  case not_ready
  then show ?thesis by (simp add: serviceClient_not_ready)
next
  case would_block
  then show ?thesis by (simp add: serviceClient_would_block)
next
  case (data B)
  then show ?thesis by (simp add: serviceClient_data)
next
  case eof
  with assms show ?thesis by simp
next
  case (error e)
  with assms show ?thesis by (simp add: serviceClient_error)
qed

section \<open>The inner loop\<close>

lemma serviceClients_subset: "set (fst (serviceClients env fds cs w)) \<subseteq> set cs"
  by (induction cs arbitrary: w) (auto simp: split_beta)

lemma serviceClients_sorted:
  "sorted_wrt (<) cs \<Longrightarrow> sorted_wrt (<) (fst (serviceClients env fds cs w))"
proof (induction cs arbitrary: w)
  case Nil
  then show ?case by simp
next
  case (Cons c cs)
  have "set (fst (serviceClients env fds cs (snd (serviceClient env fds c w)))) \<subseteq> set cs"
    by (rule serviceClients_subset)
  with Cons show ?case by (auto simp: split_beta)
qed

lemma serviceClients_other:
  assumes "t \<notin> set cs"
  shows "sent_to t (trace (snd (serviceClients env fds cs w))) = sent_to t (trace w)
       \<and> echoed t (trace (snd (serviceClients env fds cs w))) = echoed t (trace w)"
  using assms
proof (induction cs arbitrary: w)
  case Nil
  then show ?case by simp
next
  case (Cons c cs)
  then have "t \<noteq> c" and "t \<notin> set cs" by auto
  with Cons.IH [of "snd (serviceClient env fds c w)"] serviceClient_other [of t c env fds w]
  show ?case by (simp add: split_beta)
qed

lemma serviceClients_echo:
  assumes "distinct cs" and "s \<in> set cs" and "FD_ISSET s fds" and "pending_of env s = Pending B"
  shows "sent_to s (trace (snd (serviceClients env fds cs w)))
           = sent_to s (trace w) @ (if B = [] then [] else [take BUFFER_SIZE B])
       \<and> echoed s (trace (snd (serviceClients env fds cs w)))
           = echoed s (trace w) @
             (if B = [] then []
              else delivered_by s (Send s (take BUFFER_SIZE B),
                                   fst (send_ret env s (take BUFFER_SIZE B))))"
  using assms(1,2)
proof (induction cs arbitrary: w)
  case Nil
  then show ?case by simp
next
  case (Cons c cs)
  show ?case
  proof (cases "c = s")
    case True
    with Cons.prems have "s \<notin> set cs" by simp
    from serviceClients_other [OF this, of env fds "snd (serviceClient env fds s w)"]
      serviceClient_echo [OF assms(3,4), of w] True
    show ?thesis by (simp add: split_beta)
  next
    case False
    with Cons.prems have "distinct cs" and "s \<in> set cs" by auto
    from Cons.IH [OF this, of "snd (serviceClient env fds c w)"]
      serviceClient_other [of s c env fds w] False
    show ?thesis by (simp add: split_beta)
  qed
qed

lemma serviceClients_events:
  assumes "distinct cs"
  shows "\<exists>evs. trace (snd (serviceClients env fds cs w)) = trace w @ evs
     \<and> (\<forall>ev\<in>set evs. is_client_service ev)
     \<and> recv_order evs = filter (\<lambda>s. FD_ISSET s fds) cs
     \<and> (\<forall>S. live_after evs S = S - (set cs - set (fst (serviceClients env fds cs w))))"
  using assms
proof (induction cs arbitrary: w)
  case Nil
  then show ?case by simp
next
  case (Cons c cs)
  define w1 where "w1 = snd (serviceClient env fds c w)"
  define erased where "erased = fst (serviceClient env fds c w)"
  define kept where "kept = fst (serviceClients env fds cs w1)"
  obtain e1 where e1: "trace w1 = trace w @ e1" "\<forall>ev\<in>set e1. is_client_service ev"
    "recv_order e1 = (if FD_ISSET c fds then [c] else [])"
    "\<And>S. live_after e1 S = (if erased then S - {c} else S)"
    using serviceClient_events [of env fds c w] unfolding w1_def erased_def by blast
  from Cons.prems have d: "distinct cs" and c: "c \<notin> set cs" by auto
  obtain e2 where e2: "trace (snd (serviceClients env fds cs w1)) = trace w1 @ e2"
    "\<forall>ev\<in>set e2. is_client_service ev"
    "recv_order e2 = filter (\<lambda>s. FD_ISSET s fds) cs"
    "\<And>S. live_after e2 S = S - (set cs - set kept)"
    using Cons.IH [OF d, of w1] unfolding kept_def by blast
  have sub: "set kept \<subseteq> set cs" unfolding kept_def by (rule serviceClients_subset)
  have res: "serviceClients env fds (c # cs) w
      = (if erased then kept else c # kept, snd (serviceClients env fds cs w1))"
    by (simp add: split_beta w1_def erased_def kept_def)
  have "trace (snd (serviceClients env fds (c # cs) w)) = trace w @ (e1 @ e2)"
    using e1(1) e2(1) res by simp
  moreover have "\<forall>ev\<in>set (e1 @ e2). is_client_service ev"
    using e1(2) e2(2) by auto
  moreover have "recv_order (e1 @ e2) = filter (\<lambda>s. FD_ISSET s fds) (c # cs)"
    using e1(3) e2(3) by simp
  moreover have "live_after (e1 @ e2) S
      = S - (set (c # cs) - set (fst (serviceClients env fds (c # cs) w)))" for S
    using e1(4) e2(4) c sub res by auto
  ultimately show ?case by blast
qed

lemma serviceClients_keeps:
  assumes "s \<in> set cs"
    and "\<not> FD_ISSET s fds \<or> (\<exists>B. pending_of env s = Pending B) \<or> pending_of env s = SockError EAGAIN"
  shows "s \<in> set (fst (serviceClients env fds cs w))"
  using assms(1)
proof (induction cs arbitrary: w)
  case Nil
  then show ?case by simp
next
  case (Cons c cs)
  show ?case
  proof (cases "c = s")
    case True
    with serviceClient_keeps [OF assms(2), of w] show ?thesis by (simp add: split_beta)
  next
    case False
    with Cons show ?thesis by (simp add: split_beta)
  qed
qed

section \<open>One iteration\<close>

lemma select_listener:
  "FD_ISSET lfd (fst (sys_select env (maxSocketId lfd cs + 1) (interest lfd cs) w)) = readable env lfd"
  using maxSocketId_ge [of lfd cs] by (auto simp: sys_select_def FD_ISSET_def interest_eq)

lemma select_client:
  assumes "sorted_wrt (<) cs" and "s \<in> set cs"
  shows "FD_ISSET s (fst (sys_select env (maxSocketId lfd cs + 1) (interest lfd cs) w)) = readable env s"
proof -
  have "s \<in> interest lfd cs" using assms(2) by (simp add: interest_eq)
  with interest_below_nfds [OF assms(1), of _ lfd] have "s < maxSocketId lfd cs + 1" by blast
  with assms(2) show ?thesis by (simp add: sys_select_def FD_ISSET_def interest_eq)
qed

lemma select_trace:
  "trace (snd (sys_select env n fds w)) = trace w @ [(Select n fds, fst (select_ret env))]"
  by (simp add: sys_select_def sys_def)

lemma serviceListener_not_ready:
  "\<not> FD_ISSET lfd fds \<Longrightarrow> serviceListener env fds lfd cs w = (Inr cs, w)"
  by (simp add: serviceListener_def)

lemma serviceListener_ready:
  assumes "FD_ISSET lfd fds"
  shows "fst (serviceListener env fds lfd cs w) =
           (if fst (accept_ret env) = - 1 then Inl (FtException ''accept()'')
            else if fst (accept_setfl_ret env) = - 1 then Inl (FtException ''fcntl(F_SETFL)'')
            else Inr (set_insert (fst (accept_ret env)) cs))"
    and "trace (snd (serviceListener env fds lfd cs w)) = trace w @
           (if fst (accept_ret env) = - 1 then [(Accept lfd, - 1)]
            else [(Accept lfd, fst (accept_ret env)),
                  (FcntlGetfl (fst (accept_ret env)), fst (accept_getfl_ret env)),
                  (FcntlSetfl (fst (accept_ret env)) (fst (accept_getfl_ret env) OR O_NONBLOCK),
                   fst (accept_setfl_ret env))])"
  using assms by (simp_all add: serviceListener_def setFdNonblock_def sys_def)

lemma serviceListener_no_send:
  "sent_to s (trace (snd (serviceListener env fds lfd cs w))) = sent_to s (trace w)
   \<and> echoed s (trace (snd (serviceListener env fds lfd cs w))) = echoed s (trace w)"
  by (cases "FD_ISSET lfd fds") (simp_all add: serviceListener_not_ready serviceListener_ready)

lemma iteration_unfold:
  "iteration env lfd cs w =
     serviceListener env (fst (sys_select env (maxSocketId lfd cs + 1) (interest lfd cs) w)) lfd
       (fst (serviceClients env (fst (sys_select env (maxSocketId lfd cs + 1) (interest lfd cs) w)) cs
              (snd (sys_select env (maxSocketId lfd cs + 1) (interest lfd cs) w))))
       (snd (serviceClients env (fst (sys_select env (maxSocketId lfd cs + 1) (interest lfd cs) w)) cs
              (snd (sys_select env (maxSocketId lfd cs + 1) (interest lfd cs) w))))"
  by (simp add: iteration_def split_beta)

text \<open>
  Claim C1. Let \<open>s\<close> be a connected client whose descriptor \<^verbatim>\<open>select\<close> reports readable,
  and let \<open>B\<close>, of at most 1024 bytes, be what the client has sent and is queued on the
  socket. In that iteration the server calls \<^verbatim>\<open>send\<close> on \<open>s\<close> once, with exactly \<open>B\<close>
  (not at all when \<open>B\<close> is empty), and if that call is not a short write (it returns the
  length of \<open>B\<close>), the bytes written back to \<open>s\<close> in the iteration are exactly \<open>B\<close>.
\<close>

theorem echo_exact:
  assumes "sorted_wrt (<) cs" and "s \<in> set cs" and "readable env s"
    and "pending_of env s = Pending B" and "length B \<le> 1024"
    and "fst (send_ret env s B) = int (length B)"
  shows "sent_to s (trace (snd (iteration env lfd cs w)))
           = sent_to s (trace w) @ (if B = [] then [] else [B])
       \<and> echoed s (trace (snd (iteration env lfd cs w))) = echoed s (trace w) @ B"
proof -
  define fds where "fds = fst (sys_select env (maxSocketId lfd cs + 1) (interest lfd cs) w)"
  define w1 where "w1 = snd (sys_select env (maxSocketId lfd cs + 1) (interest lfd cs) w)"
  have ready: "FD_ISSET s fds"
    unfolding fds_def using assms(1-3) by (simp add: select_client)
  have d: "distinct cs" using assms(1) by (simp add: strict_sorted_iff)
  have w1: "sent_to s (trace w1) = sent_to s (trace w)" "echoed s (trace w1) = echoed s (trace w)"
    unfolding w1_def by (simp_all add: select_trace)
  have B: "take BUFFER_SIZE B = B" using assms(5) by (simp add: BUFFER_SIZE_def)
  from serviceClients_echo [OF d assms(2) ready assms(4), of w1] w1 B assms(6)
  have "sent_to s (trace (snd (serviceClients env fds cs w1)))
          = sent_to s (trace w) @ (if B = [] then [] else [B])"
    and "echoed s (trace (snd (serviceClients env fds cs w1))) = echoed s (trace w) @ B"
    by simp_all
  then show ?thesis
    by (simp add: iteration_unfold serviceListener_no_send fds_def [symmetric] w1_def [symmetric])
qed

theorem echo_exact_witness:
  "sorted_wrt (<) [4, 5, 6 :: int] \<and> (4::int) \<in> set [4, 5, 6] \<and> readable busy_env 4
   \<and> pending_of busy_env 4 = Pending ''ping'' \<and> length ''ping'' \<le> 1024
   \<and> fst (send_ret busy_env 4 ''ping'') = int (length ''ping'')
   \<and> sent_to 4 (trace (snd (iteration busy_env 3 [4, 5, 6] world0))) = [''ping'']
   \<and> echoed 4 (trace (snd (iteration busy_env 3 [4, 5, 6] world0))) = ''ping''"
  using echo_exact [of "[4, 5, 6]" 4 busy_env "''ping''" 3 world0]
  by (simp add: busy_env_def world0_def)

lemma iteration_events:
  assumes "sorted_wrt (<) cs"
  shows "\<exists>C L. trace (snd (iteration env lfd cs w)) =
            trace w @ [(Select (maxSocketId lfd cs + 1) (interest lfd cs), fst (select_ret env))] @ C @ L
      \<and> (\<forall>ev\<in>set C. is_client_service ev)
      \<and> recv_order C = filter (readable env) cs
      \<and> (\<forall>S. live_after C S = S - (set cs - set (fst (serviceClients env
              (fst (sys_select env (maxSocketId lfd cs + 1) (interest lfd cs) w)) cs
              (snd (sys_select env (maxSocketId lfd cs + 1) (interest lfd cs) w))))))
      \<and> L = (if readable env lfd
             then if fst (accept_ret env) = - 1 then [(Accept lfd, - 1)]
                  else [(Accept lfd, fst (accept_ret env)),
                        (FcntlGetfl (fst (accept_ret env)), fst (accept_getfl_ret env)),
                        (FcntlSetfl (fst (accept_ret env)) (fst (accept_getfl_ret env) OR O_NONBLOCK),
                         fst (accept_setfl_ret env))]
             else [])"
proof -
  define fds where "fds = fst (sys_select env (maxSocketId lfd cs + 1) (interest lfd cs) w)"
  define w1 where "w1 = snd (sys_select env (maxSocketId lfd cs + 1) (interest lfd cs) w)"
  define kept where "kept = fst (serviceClients env fds cs w1)"
  define w2 where "w2 = snd (serviceClients env fds cs w1)"
  have d: "distinct cs" using assms by (simp add: strict_sorted_iff)
  have t1: "trace w1 = trace w @ [(Select (maxSocketId lfd cs + 1) (interest lfd cs), fst (select_ret env))]"
    unfolding w1_def by (rule select_trace)
  obtain C where C: "trace w2 = trace w1 @ C" "\<forall>ev\<in>set C. is_client_service ev"
    "recv_order C = filter (\<lambda>s. FD_ISSET s fds) cs"
    "\<And>S. live_after C S = S - (set cs - set kept)"
    using serviceClients_events [OF d, of env fds w1] unfolding w2_def kept_def by blast
  have "filter (\<lambda>s. FD_ISSET s fds) cs = filter (readable env) cs"
    unfolding fds_def using select_client [OF assms] by (simp cong: filter_cong)
  with C(3) have r: "recv_order C = filter (readable env) cs" by simp
  have l: "FD_ISSET lfd fds = readable env lfd" unfolding fds_def by (rule select_listener)
  have it: "iteration env lfd cs w = serviceListener env fds lfd kept w2"
    by (simp add: iteration_unfold fds_def w1_def kept_def w2_def)
  define L where "L = (if readable env lfd
             then if fst (accept_ret env) = - 1 then [(Accept lfd, - 1)]
                  else [(Accept lfd, fst (accept_ret env)),
                        (FcntlGetfl (fst (accept_ret env)), fst (accept_getfl_ret env)),
                        (FcntlSetfl (fst (accept_ret env)) (fst (accept_getfl_ret env) OR O_NONBLOCK),
                         fst (accept_setfl_ret env))]
             else [])"
  have "trace (snd (iteration env lfd cs w)) = trace w2 @ L"
    unfolding it L_def using l
    by (cases "readable env lfd") (simp_all add: serviceListener_not_ready serviceListener_ready)
  with t1 C(1) have "trace (snd (iteration env lfd cs w)) =
      trace w @ [(Select (maxSocketId lfd cs + 1) (interest lfd cs), fst (select_ret env))] @ C @ L"
    by simp
  with C(2) r C(4) show ?thesis unfolding L_def kept_def fds_def w1_def by blast
qed

lemma iteration_result:
  "fst (iteration env lfd cs w) =
     (if readable env lfd
      then if fst (accept_ret env) = - 1 then Inl (FtException ''accept()'')
           else if fst (accept_setfl_ret env) = - 1 then Inl (FtException ''fcntl(F_SETFL)'')
           else Inr (set_insert (fst (accept_ret env)) (fst (serviceClients env
              (fst (sys_select env (maxSocketId lfd cs + 1) (interest lfd cs) w)) cs
              (snd (sys_select env (maxSocketId lfd cs + 1) (interest lfd cs) w)))))
      else Inr (fst (serviceClients env
              (fst (sys_select env (maxSocketId lfd cs + 1) (interest lfd cs) w)) cs
              (snd (sys_select env (maxSocketId lfd cs + 1) (interest lfd cs) w)))))"
  using select_listener [of lfd env cs w]
  by (cases "readable env lfd")
     (simp_all add: iteration_unfold serviceListener_not_ready serviceListener_ready)

lemma iteration_sorted:
  assumes "sorted_wrt (<) cs" and "fst (iteration env lfd cs w) = Inr cs'"
  shows "sorted_wrt (<) cs'"
  using assms(2) serviceClients_sorted [OF assms(1)]
  by (auto simp: iteration_result set_insert_sorted split: if_splits)

section \<open>The scenarios, evaluated\<close>

lemma busy_env_fields:
  "readable busy_env = (\<lambda>s. s = 3 \<or> s = 4 \<or> s = 5)"
  "fst (select_ret busy_env) = 3"
  "fst (accept_ret busy_env) = 7"
  "fst (accept_getfl_ret busy_env) = 2"
  "fst (accept_setfl_ret busy_env) = 0"
  "pending_of busy_env 4 = Pending ''ping''"
  "pending_of busy_env 5 = PeerClosed"
  "fst (send_ret busy_env s bs) = int (length bs)"
  by (simp_all add: busy_env_def)

lemma trace_world0: "trace world0 = []"
  by (simp add: world0_def)

lemma busy_iteration:
  "iteration busy_env 3 [4, 5, 6] world0 = (Inr [4, 6, 7],
     \<lparr>errno = 0,
      trace = [(Select 7 {3, 4, 5, 6}, 3), (Recv 4 1024, 4), (Send 4 ''ping'', 4),
               (Recv 5 1024, 0), (Shutdown 5, 0), (Close 5, 0),
               (Accept 3, 7), (FcntlGetfl 7, 2), (FcntlSetfl 7 2050, 0)],
      stderr = []\<rparr>)"
  by (simp add: iteration_def busy_env_def world0_def sys_select_def maxSocketId_def interest_def
       FD_SET_def FD_ZERO_def FD_ISSET_def serviceClient_def sys_recv_def sys_def serviceListener_def
       setFdNonblock_def BUFFER_SIZE_def EAGAIN_def O_NONBLOCK_def insert_commute)

section \<open>Order of service within an iteration\<close>



section \<open>The set of live connections\<close>

lemma iteration_tracks_open:
  assumes "sorted_wrt (<) cs" and "fst (iteration env lfd cs w) = Inr cs'"
  shows "\<exists>evs. trace (snd (iteration env lfd cs w)) = trace w @ evs \<and> set cs' = live_after evs (set cs)"
proof -
  define fds where "fds = fst (sys_select env (maxSocketId lfd cs + 1) (interest lfd cs) w)"
  define w1 where "w1 = snd (sys_select env (maxSocketId lfd cs + 1) (interest lfd cs) w)"
  define kept where "kept = fst (serviceClients env fds cs w1)"
  obtain C L where CL: "trace (snd (iteration env lfd cs w)) =
            trace w @ [(Select (maxSocketId lfd cs + 1) (interest lfd cs), fst (select_ret env))] @ C @ L"
     "\<And>S. live_after C S = S - (set cs - set kept)"
     "L = (if readable env lfd
             then if fst (accept_ret env) = - 1 then [(Accept lfd, - 1)]
                  else [(Accept lfd, fst (accept_ret env)),
                        (FcntlGetfl (fst (accept_ret env)), fst (accept_getfl_ret env)),
                        (FcntlSetfl (fst (accept_ret env)) (fst (accept_getfl_ret env) OR O_NONBLOCK),
                         fst (accept_setfl_ret env))]
             else [])"
    using iteration_events [OF assms(1), of env lfd w] unfolding kept_def fds_def w1_def by blast
  have sub: "set kept \<subseteq> set cs" unfolding kept_def by (rule serviceClients_subset)
  have res: "cs' = (if readable env lfd then set_insert (fst (accept_ret env)) kept else kept)"
    and ok: "readable env lfd \<Longrightarrow> fst (accept_ret env) \<noteq> - 1"
    using assms(2) unfolding kept_def fds_def w1_def
    by (auto simp: iteration_result split: if_splits)
  have "set cs' = live_after ([(Select (maxSocketId lfd cs + 1) (interest lfd cs), fst (select_ret env))] @ C @ L) (set cs)"
    using CL(2) [of "set cs"] sub ok unfolding res CL(3) by auto
  with CL(1) show ?thesis by blast
qed

lemma iteration_keeps:
  assumes "sorted_wrt (<) cs" and "fst (iteration env lfd cs w) = Inr cs'" and "s \<in> set cs"
    and "\<not> readable env s \<or> (\<exists>B. pending_of env s = Pending B) \<or> pending_of env s = SockError EAGAIN"
  shows "s \<in> set cs'"
proof -
  define fds where "fds = fst (sys_select env (maxSocketId lfd cs + 1) (interest lfd cs) w)"
  define w1 where "w1 = snd (sys_select env (maxSocketId lfd cs + 1) (interest lfd cs) w)"
  have "FD_ISSET s fds = readable env s"
    unfolding fds_def using assms(1,3) by (rule select_client)
  with assms(3,4) have "s \<in> set (fst (serviceClients env fds cs w1))"
    by (intro serviceClients_keeps) auto
  with assms(2) show ?thesis
    unfolding fds_def w1_def by (auto simp: iteration_result split: if_splits)
qed

text \<open>
  What does hold of the client set after an iteration that completes: it is the set
  before, minus the descriptors the iteration closed, plus the one it accepted. A client
  that is not ready stays; a client whose read would block stays; a client whose data was
  read and echoed stays, whatever \<^verbatim>\<open>send\<close> returned; and a client that left the set
  was ready and its read met the end of the stream or an error other than \<^verbatim>\<open>EAGAIN\<close>.
  The converse, that such a read removes the client, fails: see the section on the end of
  the stream below.
\<close>

lemma live_set_after_iteration:
  assumes "sorted_wrt (<) cs" and "fst (iteration env lfd cs w) = Inr cs'"
  shows "(\<exists>evs. trace (snd (iteration env lfd cs w)) = trace w @ evs \<and> set cs' = live_after evs (set cs))
     \<and> (\<forall>s\<in>set cs. \<not> readable env s \<longrightarrow> s \<in> set cs')
     \<and> (\<forall>s\<in>set cs. pending_of env s = Pending [] \<or> pending_of env s = SockError EAGAIN \<longrightarrow> s \<in> set cs')
     \<and> (\<forall>s\<in>set cs. \<forall>B. B \<noteq> [] \<and> pending_of env s = Pending B \<longrightarrow> s \<in> set cs')
     \<and> (\<forall>s\<in>set cs. s \<notin> set cs' \<longrightarrow>
           readable env s \<and> (pending_of env s = PeerClosed
              \<or> (\<exists>e. e \<noteq> EAGAIN \<and> pending_of env s = SockError e)))"
proof -
  note keep = iteration_keeps [OF assms]
  have gone: "readable env s \<and> (pending_of env s = PeerClosed
              \<or> (\<exists>e. e \<noteq> EAGAIN \<and> pending_of env s = SockError e))"
    if "s \<in> set cs" "s \<notin> set cs'" for s
    using keep [OF that(1)] that(2) by (cases "pending_of env s") auto
  from iteration_tracks_open [OF assms] keep gone show ?thesis by blast
qed

lemma live_set_after_iteration_busy:
  "sorted_wrt (<) [4, 5, 6 :: int] \<and> fst (iteration busy_env 3 [4, 5, 6] world0) = Inr [4, 6, 7]
   \<and> set [4, 6, 7 :: int] = live_after (trace (snd (iteration busy_env 3 [4, 5, 6] world0))) (set [4, 5, 6])
   \<and> pending_of busy_env 4 = Pending ''ping'' \<and> (4::int) \<in> set [4, 6, 7]
   \<and> \<not> readable busy_env 6 \<and> (6::int) \<in> set [4, 6, 7]
   \<and> (5::int) \<notin> set [4, 6, 7] \<and> readable busy_env 5 \<and> pending_of busy_env 5 = PeerClosed"
proof -
  have h1: "sorted_wrt (<) [4, 5, 6 :: int]" by simp
  have h2: "fst (iteration busy_env 3 [4, 5, 6] world0) = Inr [4, 6, 7]"
    by (simp add: busy_iteration)
  have m: "(4::int) \<in> set [4, 6, 7]" "(6::int) \<in> set [4, 6, 7]" "(5::int) \<notin> set [4, 6, 7]"
    "(5::int) \<in> set [4, 5, 6]"
    by simp_all
  have e: "pending_of busy_env 4 = Pending ''ping''" "\<not> readable busy_env 6"
    by (simp_all add: busy_env_fields)
  from live_set_after_iteration [OF h1 h2]
  have t: "\<exists>evs. trace (snd (iteration busy_env 3 [4, 5, 6] world0)) = trace world0 @ evs
          \<and> set [4, 6, 7 :: int] = live_after evs (set [4, 5, 6])"
    and g: "\<forall>s\<in>set [4, 5, 6]. s \<notin> set [4, 6, 7] \<longrightarrow>
           readable busy_env s \<and> (pending_of busy_env s = PeerClosed
              \<or> (\<exists>e. e \<noteq> EAGAIN \<and> pending_of busy_env s = SockError e))"
    by blast+
  from t have l: "set [4, 6, 7 :: int]
      = live_after (trace (snd (iteration busy_env 3 [4, 5, 6] world0))) (set [4, 5, 6])"
    unfolding trace_world0 by auto
  from g m(3,4) have r: "readable busy_env 5" by blast
  have p: "pending_of busy_env 5 = PeerClosed" by (simp add: busy_env_fields)
  show ?thesis by (intro conjI h1 h2 l e m(1-3) r p)
qed

text \<open>The same over any number of iterations of the loop.\<close>

lemma event_loop_tracks_open:
  assumes "sorted_wrt (<) cs" and "fst (event_loop envs lfd cs w) = Inr cs'"
  shows "sorted_wrt (<) cs' \<and> (\<exists>evs. trace (snd (event_loop envs lfd cs w)) = trace w @ evs
      \<and> set cs' = live_after evs (set cs))"
  using assms
proof (induction envs arbitrary: cs w)
  case Nil
  then show ?case by simp
next
  case (Cons env envs)
  obtain r w1 where it: "iteration env lfd cs w = (r, w1)" by (cases "iteration env lfd cs w")
  with Cons.prems(2) obtain cs1 where r: "r = Inr cs1" by (cases r) auto
  from it r have f: "fst (iteration env lfd cs w) = Inr cs1" by simp
  have s1: "sorted_wrt (<) cs1" using Cons.prems(1) f by (rule iteration_sorted)
  obtain e1 where e1: "trace w1 = trace w @ e1" "set cs1 = live_after e1 (set cs)"
    using iteration_tracks_open [OF Cons.prems(1) f] it by auto
  from it r Cons.prems(2) have "fst (event_loop envs lfd cs1 w1) = Inr cs'" by simp
  from Cons.IH [OF s1 this] obtain e2 where
    e2: "sorted_wrt (<) cs'" "trace (snd (event_loop envs lfd cs1 w1)) = trace w1 @ e2"
      "set cs' = live_after e2 (set cs1)" by blast
  have "trace (snd (event_loop (env # envs) lfd cs w)) = trace w @ (e1 @ e2)"
    using it r e1(1) e2(2) by simp
  moreover have "set cs' = live_after (e1 @ e2) (set cs)" using e1(2) e2(3) by simp
  ultimately show ?case using e2(1) by blast
qed

section \<open>Accepting a connection\<close>

lemma or_and_absorb: "(g OR O_NONBLOCK) AND O_NONBLOCK = O_NONBLOCK"
  by (auto simp: bit_eq_iff bit_and_iff bit_or_iff)

lemma no_accept_in_client_events:
  "\<forall>ev\<in>set C. is_client_service ev \<Longrightarrow> count_list (map fst C) (Accept lfd) = 0"
  by (induction C) auto

text \<open>
  Claim C8, as amended. In an iteration where \<^verbatim>\<open>select\<close> reports the listener ready,
  the server calls \<^verbatim>\<open>accept\<close> exactly once. When \<^verbatim>\<open>accept\<close> returns \<open>-1\<close> the
  exception \<open>accept()\<close> ends the loop there. Otherwise the server asks for
  \<^verbatim>\<open>O_NONBLOCK\<close> on the new descriptor with \<^verbatim>\<open>fcntl(F_SETFL)\<close>; when that call
  succeeds the descriptor is inserted into the set of the clients the iteration kept, and
  when it fails the exception \<open>fcntl(F_SETFL)\<close> ends the loop there.
\<close>

theorem listener_accepts_one:
  assumes "sorted_wrt (<) cs" and "readable env lfd"
  shows "count_list (map fst (trace (snd (iteration env lfd cs w)))) (Accept lfd)
           = count_list (map fst (trace w)) (Accept lfd) + 1
     \<and> (fst (accept_ret env) = - 1 \<longrightarrow>
          event_loop (env # envs) lfd cs w = (Inl (FtException ''accept()''), snd (iteration env lfd cs w)))
     \<and> (fst (accept_ret env) \<noteq> - 1 \<longrightarrow>
          (FcntlSetfl (fst (accept_ret env)) (fst (accept_getfl_ret env) OR O_NONBLOCK),
             fst (accept_setfl_ret env)) \<in> set (trace (snd (iteration env lfd cs w)))
          \<and> (fst (accept_getfl_ret env) OR O_NONBLOCK) AND O_NONBLOCK = O_NONBLOCK)
     \<and> (fst (accept_ret env) \<noteq> - 1 \<and> fst (accept_setfl_ret env) \<noteq> - 1 \<longrightarrow>
          (\<exists>kept. set kept \<subseteq> set cs
             \<and> fst (iteration env lfd cs w) = Inr (set_insert (fst (accept_ret env)) kept)
             \<and> set (set_insert (fst (accept_ret env)) kept) = insert (fst (accept_ret env)) (set kept)))
     \<and> (fst (accept_ret env) \<noteq> - 1 \<and> fst (accept_setfl_ret env) = - 1 \<longrightarrow>
          event_loop (env # envs) lfd cs w
            = (Inl (FtException ''fcntl(F_SETFL)''), snd (iteration env lfd cs w)))"
proof -
  obtain C L where CL: "trace (snd (iteration env lfd cs w)) =
            trace w @ [(Select (maxSocketId lfd cs + 1) (interest lfd cs), fst (select_ret env))] @ C @ L"
     "\<forall>ev\<in>set C. is_client_service ev"
     "L = (if readable env lfd
             then if fst (accept_ret env) = - 1 then [(Accept lfd, - 1)]
                  else [(Accept lfd, fst (accept_ret env)),
                        (FcntlGetfl (fst (accept_ret env)), fst (accept_getfl_ret env)),
                        (FcntlSetfl (fst (accept_ret env)) (fst (accept_getfl_ret env) OR O_NONBLOCK),
                         fst (accept_setfl_ret env))]
             else [])"
    using iteration_events [OF assms(1), of env lfd w] by blast
  have one: "count_list (map fst (trace (snd (iteration env lfd cs w)))) (Accept lfd)
           = count_list (map fst (trace w)) (Accept lfd) + 1"
    unfolding CL(1) CL(3) using assms(2) no_accept_in_client_events [OF CL(2), of lfd]
    by simp
  have fail: "event_loop (env # envs) lfd cs w = (Inl (FtException ''accept()''), snd (iteration env lfd cs w))"
    if "fst (accept_ret env) = - 1"
  proof -
    have "fst (iteration env lfd cs w) = Inl (FtException ''accept()'')"
      using that assms(2) by (simp add: iteration_result)
    then show ?thesis by (cases "iteration env lfd cs w") simp
  qed
  have nb: "(FcntlSetfl (fst (accept_ret env)) (fst (accept_getfl_ret env) OR O_NONBLOCK),
             fst (accept_setfl_ret env)) \<in> set (trace (snd (iteration env lfd cs w)))"
    if "fst (accept_ret env) \<noteq> - 1"
    unfolding CL(1) CL(3) using that assms(2) by simp
  have add: "\<exists>kept. set kept \<subseteq> set cs
             \<and> fst (iteration env lfd cs w) = Inr (set_insert (fst (accept_ret env)) kept)
             \<and> set (set_insert (fst (accept_ret env)) kept) = insert (fst (accept_ret env)) (set kept)"
    if "fst (accept_ret env) \<noteq> - 1" "fst (accept_setfl_ret env) \<noteq> - 1"
    using that assms(2)
    by (intro exI [of _ "fst (serviceClients env
              (fst (sys_select env (maxSocketId lfd cs + 1) (interest lfd cs) w)) cs
              (snd (sys_select env (maxSocketId lfd cs + 1) (interest lfd cs) w)))"])
       (simp add: iteration_result serviceClients_subset)
  have thr: "event_loop (env # envs) lfd cs w
            = (Inl (FtException ''fcntl(F_SETFL)''), snd (iteration env lfd cs w))"
    if "fst (accept_ret env) \<noteq> - 1" "fst (accept_setfl_ret env) = - 1"
  proof -
    have "fst (iteration env lfd cs w) = Inl (FtException ''fcntl(F_SETFL)'')"
      using that assms(2) by (simp add: iteration_result)
    then show ?thesis by (cases "iteration env lfd cs w") simp
  qed
  from one fail nb add thr or_and_absorb show ?thesis by blast
qed

lemma count_accept_world0: "count_list (map fst (trace world0)) (Accept 3) = 0"
  by (simp add: world0_def)

theorem listener_accepts_one_witness:
  "sorted_wrt (<) [4, 5, 6 :: int] \<and> readable busy_env 3
   \<and> count_list (map fst (trace (snd (iteration busy_env 3 [4, 5, 6] world0)))) (Accept 3) = 1
   \<and> (FcntlSetfl 7 2050, 0) \<in> set (trace (snd (iteration busy_env 3 [4, 5, 6] world0)))
   \<and> (2050::int) AND O_NONBLOCK = O_NONBLOCK
   \<and> fst (iteration busy_env 3 [4, 5, 6] world0) = Inr [4, 6, 7]
   \<and> event_loop [busy_env\<lparr>accept_ret := (- 1, Some 24)\<rparr>] 3 [4, 5, 6] world0
        = (Inl (FtException ''accept()''),
           snd (iteration (busy_env\<lparr>accept_ret := (- 1, Some 24)\<rparr>) 3 [4, 5, 6] world0))
   \<and> event_loop [busy_env\<lparr>accept_setfl_ret := (- 1, Some 9)\<rparr>] 3 [4, 5, 6] world0
        = (Inl (FtException ''fcntl(F_SETFL)''),
           snd (iteration (busy_env\<lparr>accept_setfl_ret := (- 1, Some 9)\<rparr>) 3 [4, 5, 6] world0))"
proof -
  have h1: "sorted_wrt (<) [4, 5, 6 :: int]" by simp
  have h2: "readable busy_env 3" by (simp add: busy_env_fields)
  have h3: "readable (busy_env\<lparr>accept_ret := (- 1, Some 24)\<rparr>) 3" by (simp add: busy_env_fields)
  have h4: "readable (busy_env\<lparr>accept_setfl_ret := (- 1, Some 9)\<rparr>) 3"
    by (simp add: busy_env_fields)
  have a: "fst (accept_ret busy_env) \<noteq> - 1" by (simp add: busy_env_fields)
  from listener_accepts_one [OF h1 h2, of world0] a
  have c: "count_list (map fst (trace (snd (iteration busy_env 3 [4, 5, 6] world0)))) (Accept 3) = 1"
    and f: "(FcntlSetfl 7 2050, 0) \<in> set (trace (snd (iteration busy_env 3 [4, 5, 6] world0)))"
    and b: "(2050::int) AND O_NONBLOCK = O_NONBLOCK"
    by (simp_all add: count_accept_world0 busy_env_fields O_NONBLOCK_def)
  have r: "fst (iteration busy_env 3 [4, 5, 6] world0) = Inr [4, 6, 7]"
    by (simp add: busy_iteration)
  from listener_accepts_one [OF h1 h3, of world0 "[]"]
  have x: "event_loop [busy_env\<lparr>accept_ret := (- 1, Some 24)\<rparr>] 3 [4, 5, 6] world0
        = (Inl (FtException ''accept()''),
           snd (iteration (busy_env\<lparr>accept_ret := (- 1, Some 24)\<rparr>) 3 [4, 5, 6] world0))"
    by simp
  from listener_accepts_one [OF h1 h4, of world0 "[]"]
  have y: "event_loop [busy_env\<lparr>accept_setfl_ret := (- 1, Some 9)\<rparr>] 3 [4, 5, 6] world0
        = (Inl (FtException ''fcntl(F_SETFL)''),
           snd (iteration (busy_env\<lparr>accept_setfl_ret := (- 1, Some 9)\<rparr>) 3 [4, 5, 6] world0))"
    by (simp add: busy_env_fields)
  show ?thesis by (intro conjI h1 h2 c f b r x y)
qed

text \<open>
  Claim C8 as first stated has the accepted connection added to the set whenever the
  listener is ready, and knows no failure but that of \<^verbatim>\<open>accept\<close>. Here the listener is
  ready and \<^verbatim>\<open>accept\<close> returns descriptor 7, but \<^verbatim>\<open>fcntl(F_SETFL)\<close> on it fails: the
  iteration ends with the exception \<open>fcntl(F_SETFL)\<close>, which is not the one of
  \<^verbatim>\<open>accept\<close>, and descriptor 7 has joined no set.
\<close>

theorem accepted_not_added_when_fcntl_fails:
  "readable (busy_env\<lparr>accept_setfl_ret := (- 1, Some 9)\<rparr>) 3
   \<and> fst (accept_ret (busy_env\<lparr>accept_setfl_ret := (- 1, Some 9)\<rparr>)) = 7
   \<and> iteration (busy_env\<lparr>accept_setfl_ret := (- 1, Some 9)\<rparr>) 3 [4, 5, 6] world0
       = (Inl (FtException ''fcntl(F_SETFL)''),
          \<lparr>errno = 9,
           trace = [(Select 7 {3, 4, 5, 6}, 3), (Recv 4 1024, 4), (Send 4 ''ping'', 4),
                    (Recv 5 1024, 0), (Shutdown 5, 0), (Close 5, 0),
                    (Accept 3, 7), (FcntlGetfl 7, 2), (FcntlSetfl 7 2050, - 1)],
           stderr = []\<rparr>)"
  by (simp add: iteration_def busy_env_def world0_def sys_select_def maxSocketId_def interest_def
       FD_SET_def FD_ZERO_def FD_ISSET_def serviceClient_def sys_recv_def sys_def serviceListener_def
       setFdNonblock_def BUFFER_SIZE_def EAGAIN_def O_NONBLOCK_def insert_commute)

section \<open>End of stream and \<^verbatim>\<open>errno\<close>\<close>

text \<open>
  \<^verbatim>\<open>recv\<close> does not touch \<^verbatim>\<open>errno\<close> when it returns 0, so the test
  \<^verbatim>\<open>nRead <= 0 && errno != EAGAIN\<close> reads what an earlier call has left there.
\<close>

lemma eof_depends_on_errno:
  assumes "FD_ISSET s fds" and "pending_of env s = PeerClosed"
  shows "serviceClient env fds s w =
     (if errno w \<noteq> EAGAIN
      then (True, snd (sys (Close s) (client_close_ret env s)
                   (snd (sys (Shutdown s) (shutdown_ret env s)
                      (snd (sys (Recv s BUFFER_SIZE) (0, None) w))))))
      else (False, snd (sys (Recv s BUFFER_SIZE) (0, None) w)))"
  using assms by (simp add: serviceClient_def sys_recv_def sys_def)

text \<open>
  Claim C2 says that a read of zero bytes always makes the server shut the connection
  down, close it and drop it from the set, whatever \<^verbatim>\<open>errno\<close> holds. Here client 5 has
  closed its side, and just before, \<^verbatim>\<open>send\<close> to client 4 has failed with \<^verbatim>\<open>EAGAIN\<close>:
  the read on 5 returns 0, and the server neither shuts down nor closes descriptor 5,
  which stays in the set.
\<close>

theorem eof_kept_when_errno_is_EAGAIN:
  "iteration send_buffer_full_env 3 [4, 5, 6] world0 = (Inr [4, 5, 6, 7],
     \<lparr>errno = 11,
      trace = [(Select 7 {3, 4, 5, 6}, 3), (Recv 4 1024, 4), (Send 4 ''ping'', - 1),
               (Recv 5 1024, 0),
               (Accept 3, 7), (FcntlGetfl 7, 2), (FcntlSetfl 7 2050, 0)],
      stderr = []\<rparr>)"
  by (simp add: iteration_def send_buffer_full_env_def busy_env_def world0_def sys_select_def
       maxSocketId_def interest_def
       FD_SET_def FD_ZERO_def FD_ISSET_def serviceClient_def sys_recv_def sys_def serviceListener_def
       setFdNonblock_def BUFFER_SIZE_def EAGAIN_def O_NONBLOCK_def insert_commute)

text \<open>
  Claim C5 says that after every iteration a connection is in the set if and only if it
  is open and not yet known to be closed or erroring. In the same iteration the read on
  client 5 has returned 0, so the server knows that the peer has closed; the iteration
  completes, descriptor 5 was not closed, and it is still in the set handed to the next
  iteration.
\<close>

theorem closed_peer_stays_in_live_set:
  "pending_of send_buffer_full_env 5 = PeerClosed
   \<and> fst (iteration send_buffer_full_env 3 [4, 5, 6] world0) = Inr [4, 5, 6, 7]
   \<and> (Recv 5 1024, 0) \<in> set (trace (snd (iteration send_buffer_full_env 3 [4, 5, 6] world0)))
   \<and> count_list (map fst (trace (snd (iteration send_buffer_full_env 3 [4, 5, 6] world0)))) (Close 5) = 0
   \<and> (5::int) \<in> set [4, 5, 6, 7]"
  by (simp add: iteration_def send_buffer_full_env_def busy_env_def world0_def sys_select_def
       maxSocketId_def interest_def
       FD_SET_def FD_ZERO_def FD_ISSET_def serviceClient_def sys_recv_def sys_def serviceListener_def
       setFdNonblock_def BUFFER_SIZE_def EAGAIN_def O_NONBLOCK_def insert_commute)

section \<open>Errors that reach \<^verbatim>\<open>main\<close>\<close>

text \<open>
  Claim C3 says that every fail-fast error ends the process with a failure status and a
  one-line message on standard error. Here the port is taken and \<^verbatim>\<open>bind\<close> fails in the
  constructor:
  the handler of the constructor closes the descriptor and rethrows with \<^verbatim>\<open>throw e\<close>,
  which throws a copy of static type \<^verbatim>\<open>std::exception\<close>; the handler of \<^verbatim>\<open>main\<close> is
  for \<^verbatim>\<open>ft::exception\<close> and does not match, so the process ends in
  \<^verbatim>\<open>std::terminate\<close> and \<^verbatim>\<open>main\<close> has written nothing.
\<close>

theorem bind_failure_terminates:
  "main [''server'', ''8080''] (startup_ok\<lparr>bind_ret := (- 1, Some 98)\<rparr>) [] world0
     = (Terminated,
        \<lparr>errno = 98,
         trace = [(Socket, 3), (Setsockopt 3, 0), (FcntlGetfl 3, 2), (FcntlSetfl 3 2050, 0),
                  (Bind 3 8080, - 1), (Close 3, 0)],
         stderr = []\<rparr>)"
  by (simp add: main_def main_try_def Server_ctor_def ServerSocket_ctor_def ServerSocket_try_def
      setFdNonblock_def sys_def startup_ok_def world0_def throw_copy_as_std_exception_def
      O_NONBLOCK_def atoi_def strtol_def long_to_int_def LONG_MAX_def LONG_MIN_def
      isspace_def isdigit_def)

text \<open>
  The same for every failure inside the \<^verbatim>\<open>try\<close> block of the constructor, while the
  errors thrown elsewhere are reported as the claim says.
\<close>

lemma ctor_body_failure_terminates:
  assumes "length argv = 2" and "0 < atoi (argv ! 1)" and "atoi (argv ! 1) \<le> 65535"
    and "0 \<le> fst (socket_ret senv)"
    and "fst (setsockopt_ret senv) < 0 \<or> fst (setfl_ret senv) = - 1 \<or> fst (bind_ret senv) < 0"
  shows "fst (main argv senv envs w) = Terminated
       \<and> stderr (snd (main argv senv envs w)) = stderr w"
  using assms
  by (auto simp: main_def main_try_def Server_ctor_def ServerSocket_ctor_def ServerSocket_try_def
       setFdNonblock_def sys_def throw_copy_as_std_exception_def split: prod.splits sum.splits exn.splits)

lemma main_reports_ft_exceptions:
  assumes "length argv = 2"
  shows "atoi (argv ! 1) \<le> 0 \<or> atoi (argv ! 1) > 65535 \<Longrightarrow>
           main argv senv envs w = (Exited EXIT_FAILURE, cerr ''Invalid port'' w)"
    and "0 < atoi (argv ! 1) \<Longrightarrow> atoi (argv ! 1) \<le> 65535 \<Longrightarrow> fst (socket_ret senv) < 0 \<Longrightarrow>
           fst (main argv senv envs w) = Exited EXIT_FAILURE
           \<and> stderr (snd (main argv senv envs w)) = stderr w @ [''socket()'']"
  using assms
  by (auto simp: main_def main_try_def Server_ctor_def ServerSocket_ctor_def cerr_def sys_def
       split: prod.splits sum.splits exn.splits)

lemma ctor_success:
  assumes "0 < port" and "port \<le> 65535" and "0 \<le> fst (socket_ret senv)"
    and "0 \<le> fst (setsockopt_ret senv)" and "fst (setfl_ret senv) \<noteq> - 1" and "0 \<le> fst (bind_ret senv)"
  shows "fst (Server_ctor senv port w) = Inr \<lparr>socket = \<lparr>fd = fst (socket_ret senv), listening = False\<rparr>, started = False\<rparr>"
    and "stderr (snd (Server_ctor senv port w)) = stderr w"
  using assms
  by (auto simp: Server_ctor_def ServerSocket_ctor_def ServerSocket_try_def
       setFdNonblock_def sys_def split: prod.splits sum.splits)

lemma main_reports_listen_failure:
  assumes "length argv = 2" and "0 < atoi (argv ! 1)" and "atoi (argv ! 1) \<le> 65535"
    and "0 \<le> fst (socket_ret senv)"
    and "0 \<le> fst (setsockopt_ret senv)" and "fst (setfl_ret senv) \<noteq> - 1" and "0 \<le> fst (bind_ret senv)"
    and "fst (listen_ret senv) < 0"
  shows "fst (main argv senv envs w) = Exited EXIT_FAILURE
       \<and> stderr (snd (main argv senv envs w)) = stderr w @ [''listen()'']"
proof -
  obtain srv w1 where c: "Server_ctor senv (atoi (argv ! 1)) w = (Inr srv, w1)"
    "srv = \<lparr>socket = \<lparr>fd = fst (socket_ret senv), listening = False\<rparr>, started = False\<rparr>"
    "stderr w1 = stderr w"
    using ctor_success [OF assms(2-7), of w] by (cases "Server_ctor senv (atoi (argv ! 1)) w") auto
  have "fst (start senv envs srv w1) = Inl (FtException ''listen()'')"
    and "stderr (snd (start senv envs srv w1)) = stderr w1"
    using assms(8) c(2) by (simp_all add: start_def listen_def sys_def)
  then show ?thesis using assms(1) c(1,3)
    by (cases "start senv envs srv w1")
       (simp add: main_def main_try_def cerr_def Server_dtor_def ServerSocket_dtor_def sys_def)
qed

end
